theory Spec2Isabelle
  imports Complex_Main "HOL-Library.Multiset" "HOL-Library.List_Lexorder" "HOL-Library.Char_ord"
    "HOL-Library.AList"
begin

text \<open>
  A model of the cross-layer correlation engine: the Deduplicator, the AzureCorrelator
  and the AWSCorrelator, each function translated from its Python source, with tables as
  lists of rows, missing values as \<open>None\<close>, raised exceptions as values of a sum type and
  the correlator objects as records whose fields the stages read and write.
\<close>

section \<open>Shared data model\<close>

text \<open>
  The correlation engine raises \<open>ValueError\<close> with a message when a stage is called
  before its input exists; the data-frame library raises \<open>KeyError\<close> when a column that
  is asked for does not exist, and \<open>str.join\<close> raises \<open>TypeError\<close> on a missing value. They
  become values of a sum type.
\<close>

datatype error = ValueError string | KeyError "string list" | TypeError string

text \<open>
  A data frame is a list of column names and a list of rows. A row maps a column name to
  its cell; \<open>None\<close> is the missing value (NaN), which is also what a row holds for a
  column it never had.
\<close>

type_synonym 'v row = "string \<Rightarrow> 'v option"

record 'v table =
  columns :: "string list"
  rows :: "'v row list"

section \<open>Deduplicator (common/deduplication.py)\<close>

datatype keep = KeepFirst | KeepLast | KeepFalse

text \<open>
  \<open>DataFrame.drop_duplicates\<close>: rows are compared on the cells of the key columns, in
  input order. \<open>keep_first\<close> walks the rows with the keys seen so far.
\<close>

fun keep_first :: "('r \<Rightarrow> 'k) \<Rightarrow> 'k list \<Rightarrow> 'r list \<Rightarrow> 'r list" where
  "keep_first key seen [] = []"
| "keep_first key seen (r # rs) =
     (if key r \<in> set seen then keep_first key seen rs
      else r # keep_first key (key r # seen) rs)"

definition drop_duplicates_rows :: "('r \<Rightarrow> 'k) \<Rightarrow> keep \<Rightarrow> 'r list \<Rightarrow> 'r list" where
  "drop_duplicates_rows key kp rs =
     (case kp of
        KeepFirst \<Rightarrow> keep_first key [] rs
      | KeepLast \<Rightarrow> rev (keep_first key [] (rev rs))
      | KeepFalse \<Rightarrow> filter (\<lambda>r. length (filter (\<lambda>r'. key r' = key r) rs) = 1) rs)"

definition row_key :: "string list \<Rightarrow> 'v row \<Rightarrow> 'v option list" where
  "row_key ks r = map r ks"

text \<open>
  The library call: an empty frame (no column or no row) is returned as it is; without a
  subset every column is a key column; a key column the frame does not have is a
  \<open>KeyError\<close>.
\<close>

definition df_drop_duplicates :: "'v table \<Rightarrow> string list option \<Rightarrow> keep \<Rightarrow> error + 'v table" where
  "df_drop_duplicates df subs kp =
     (if columns df = [] \<or> rows df = [] then Inr df
      else
        let ks = (case subs of None \<Rightarrow> columns df | Some ks \<Rightarrow> ks) in
        if \<not> set ks \<subseteq> set (columns df)
        then Inl (KeyError (filter (\<lambda>k. k \<notin> set (columns df)) ks))
        else Inr (df\<lparr>rows := drop_duplicates_rows (row_key ks) kp (rows df)\<rparr>))"

text \<open>
  \<open>Deduplicator.remove_duplicates(df, subset, keep)\<close>, the argument \<open>subset\<close> written
  \<open>subs\<close>. The test \<open>if subset\<close> sends both \<open>None\<close> and the empty list to the full-row branch. The count of removed rows is only
  printed, so it is not part of the result.
\<close>

definition remove_duplicates :: "'v table \<Rightarrow> string list option \<Rightarrow> keep \<Rightarrow> error + 'v table" where
  "remove_duplicates df subs kp =
     (if subs \<noteq> None \<and> subs \<noteq> Some []
      then df_drop_duplicates df subs kp
      else df_drop_duplicates df None kp)"

datatype how = Inner | Outer | Left | Right

text \<open>
  \<open>pd.concat([result, df], ignore_index=True)\<close>: the rows of both frames, one after the
  other, over the union of the columns; a row has no cell in a column of the other frame.
\<close>

definition pd_concat :: "'v table \<Rightarrow> 'v table \<Rightarrow> 'v table" where
  "pd_concat a b =
     \<lparr>columns = columns a @ filter (\<lambda>c. c \<notin> set (columns a)) (columns b),
      rows = map (\<lambda>r. r |` set (columns a)) (rows a) @ map (\<lambda>r. r |` set (columns b)) (rows b)\<rparr>"

text \<open>
  The loop of \<open>merge_and_deduplicate\<close> over \<open>dfs[1:]\<close>. The relational join \<open>pd.merge\<close>
  is the library's; it is the parameter \<open>pd_merge\<close>.
\<close>

fun merge_loop ::
  "('v table \<Rightarrow> 'v table \<Rightarrow> string list \<Rightarrow> how \<Rightarrow> error + 'v table) \<Rightarrow>
   string list option \<Rightarrow> how \<Rightarrow> 'v table \<Rightarrow> 'v table list \<Rightarrow> error + 'v table" where
  "merge_loop pd_merge merge_on h result [] = Inr result"
| "merge_loop pd_merge merge_on h result (df # dfs) =
     (case merge_on of
        Some (k # ks) \<Rightarrow>
          (case pd_merge result df (k # ks) h of
             Inl e \<Rightarrow> Inl e
           | Inr result' \<Rightarrow> merge_loop pd_merge merge_on h result' dfs)
      | _ \<Rightarrow> merge_loop pd_merge merge_on h (pd_concat result df) dfs)"

definition merge_and_deduplicate ::
  "('v table \<Rightarrow> 'v table \<Rightarrow> string list \<Rightarrow> how \<Rightarrow> error + 'v table) \<Rightarrow>
   'v table list \<Rightarrow> string list option \<Rightarrow> how \<Rightarrow> error + 'v table" where
  "merge_and_deduplicate pd_merge dfs merge_on h =
     (case dfs of
        [] \<Rightarrow> Inr \<lparr>columns = [], rows = []\<rparr>
      | [df] \<Rightarrow> Inr df
      | df # rest \<Rightarrow>
          (case merge_loop pd_merge merge_on h df rest of
             Inl e \<Rightarrow> Inl e
           | Inr result \<Rightarrow> remove_duplicates result None KeepFirst))"

text \<open>A frame has no two fully identical rows when its rows differ on its columns.\<close>

definition no_duplicate_rows :: "'v table \<Rightarrow> bool" where
  "no_duplicate_rows df = distinct (map (row_key (columns df)) (rows df))"

section \<open>Strings, instants and grouping\<close>

text \<open>
  An instant is a count of nanoseconds since the epoch, in UTC, which is the resolution of
  the library's timestamps. Every row of a loaded table holds an instant: the loaders
  normalise the timestamp column before they store a table.
\<close>

type_synonym timestamp = int

definition Timedelta_hours :: "int \<Rightarrow> int" where
  "Timedelta_hours h = h * 3600000000000"

definition Timedelta_minutes :: "int \<Rightarrow> int" where
  "Timedelta_minutes m = m * 60000000000"

definition total_seconds :: "int \<Rightarrow> real" where
  "total_seconds d = real_of_int d / 1000000000"

text \<open>\<open>Series.drop_duplicates\<close> and \<open>Series.unique\<close>: the values in order of first occurrence.\<close>

definition unique :: "'a list \<Rightarrow> 'a list" where
  "unique xs = keep_first (\<lambda>x. x) [] xs"

text \<open>
  \<open>DataFrame.groupby(col)\<close>: one group per value of the column, the values in ascending
  order, the rows of a group in input order; rows whose value is missing are in no group.
\<close>

definition groupby :: "('r \<Rightarrow> 'k::linorder option) \<Rightarrow> 'r list \<Rightarrow> ('k \<times> 'r list) list" where
  "groupby key rs =
     map (\<lambda>k. (k, filter (\<lambda>r. key r = Some k) rs)) (sort (remdups (List.map_filter key rs)))"

text \<open>
  \<open>DataFrame.sort_values(col)\<close> is \<open>sort_key\<close>, which orders the rows by the column and
  keeps rows of equal keys in input order. The library's default algorithm does not
  promise an order among equal keys; no theorem below depends on that order.
\<close>

text \<open>Python's \<open>a in b\<close> on strings, \<open>str.lower\<close>, \<open>str.split\<close>, \<open>str.join\<close> and \<open>str\<close> of a number.\<close>

fun str_in :: "string \<Rightarrow> string \<Rightarrow> bool" where
  "str_in a [] = (a = [])"
| "str_in a (c # cs) = (take (length a) (c # cs) = a \<or> str_in a cs)"

definition lower_char :: "char \<Rightarrow> char" where
  "lower_char c =
     (if CHR ''A'' \<le> c \<and> c \<le> CHR ''Z'' then char_of (of_char c + (32::nat)) else c)"

definition lower :: "string \<Rightarrow> string" where
  "lower s = map lower_char s"

fun split_on :: "char \<Rightarrow> string \<Rightarrow> string list" where
  "split_on d [] = [[]]"
| "split_on d (c # cs) =
     (if c = d then [] # split_on d cs
      else (case split_on d cs of [] \<Rightarrow> [[c]] | p # ps \<Rightarrow> (c # p) # ps))"

fun join :: "string \<Rightarrow> string list \<Rightarrow> string" where
  "join sep [] = []"
| "join sep [x] = x"
| "join sep (x # y # ys) = x @ sep @ join sep (y # ys)"



text \<open>\<open>astype(str)\<close> of a text cell: the missing value prints as \<open>nan\<close>.\<close>

definition astype_str :: "string option \<Rightarrow> string" where
  "astype_str c = (case c of None \<Rightarrow> ''nan'' | Some s \<Rightarrow> s)"

text \<open>The first element of a column (\<open>.iloc[0]\<close>) where the column is never empty.\<close>

definition first_cell :: "'a option list \<Rightarrow> 'a option" where
  "first_cell xs = (case xs of [] \<Rightarrow> None | x # _ \<Rightarrow> x)"

section \<open>AzureCorrelator (azure_correlator.py)\<close>

text \<open>
  A sign-in row: its instant (the column \<open>Date\<close> after normalisation) and its other
  cells by column name, as text. A sign-in table lists the columns it has.
\<close>

record signin =
  Date :: timestamp
  cells :: "string \<Rightarrow> string option"

record signin_log =
  log_columns :: "string list"
  log_rows :: "signin list"

text \<open>
  A row of the session mapping. The two branches of the builder write different keys;
  a key a row does not have is a missing cell of the table.
\<close>

record az_session =
  az_User :: string
  VM_Identifier :: string
  VM_Name :: string
  Session_Start :: timestamp
  Session_End :: timestamp
  IP_Address :: "string option"
  Application :: "string option"
  Request_ID :: "string option"
  Event_Count :: "nat option"
  Request_IDs :: "string option"

record az_activity =
  Activity_Type :: string
  act_User :: string
  Attempts :: "nat option"
  VM_Count :: "nat option"
  Switch_Count :: "nat option"
  IP_Count :: "nat option"
  Start_Time :: timestamp
  End_Time :: timestamp
  IPs :: "string option"
  VM_List :: "string option"
  Details :: string

record azure_correlator =
  interactive_signin_df :: "signin_log option"
  noninteractive_signin_df :: "signin_log option"
  user_vm_mapping :: "az_session list option"
  activity_timeline :: "az_activity list option"
  vm_name_mapping :: "(string \<times> string) list"

definition azure_init :: azure_correlator where
  "azure_init =
     \<lparr>interactive_signin_df = None, noninteractive_signin_df = None, user_vm_mapping = None,
      activity_timeline = None, vm_name_mapping = []\<rparr>"

text \<open>\<open>_generate_vm_name\<close>: returns the name and the cache, which it may have extended.\<close>

definition generate_vm_name ::
  "(string \<times> string) list \<Rightarrow> string \<Rightarrow> string \<times> (string \<times> string) list" where
  "generate_vm_name cache device_id =
     (if device_id = [] \<or> device_id = ''Unknown'' then (''Unknown'', cache)
      else
        (case map_of cache device_id of
           Some vm_name \<Rightarrow> (vm_name, cache)
         | None \<Rightarrow>
             let parts = split_on CHR ''-'' device_id;
                 short_id = (if length parts > 1 then last parts else take 12 device_id);
                 vm_name = ''VM-'' @ short_id
             in (vm_name, cache @ [(device_id, vm_name)])))"

text \<open>\<open>Series.get\<close> and \<open>DataFrame.get\<close>: the cell or column when the table has it, else the default.\<close>

definition event_get :: "string list \<Rightarrow> signin \<Rightarrow> string \<Rightarrow> string option \<Rightarrow> string option" where
  "event_get cols event c dflt = (if c \<in> set cols then cells event c else dflt)"

definition group_get ::
  "string list \<Rightarrow> signin list \<Rightarrow> string \<Rightarrow> string option list \<Rightarrow> string option list" where
  "group_get cols grp c dflt = (if c \<in> set cols then map (\<lambda>r. cells r c) grp else dflt)"

definition az_user_col :: "string list \<Rightarrow> string" where
  "az_user_col cols =
     (if ''User'' \<in> set cols then ''User''
      else (case find (\<lambda>c. c \<in> set cols) [''Username'', ''userPrincipalName'', ''user''] of
              Some c \<Rightarrow> c | None \<Rightarrow> ''User''))"

definition az_device_col :: "string list \<Rightarrow> string option" where
  "az_device_col cols =
     find (\<lambda>c. c \<in> set cols) [''Device ID'', ''deviceId'', ''IP address'', ''ipAddress'']"

text \<open>The fallback branch: one session per event, on the device \<open>Unknown\<close>.\<close>

definition fallback_session :: "string list \<Rightarrow> string \<Rightarrow> string \<Rightarrow> signin \<Rightarrow> az_session" where
  "fallback_session cols user vm_name event =
     \<lparr>az_User = user,
      VM_Identifier = ''Unknown'',
      VM_Name = vm_name,
      Session_Start = Date event,
      Session_End = Date event + Timedelta_minutes 30,
      IP_Address = event_get cols event ''IP address'' (event_get cols event ''ipAddress'' (Some ''N/A'')),
      Application = event_get cols event ''Application'' (Some ''N/A''),
      Request_ID = event_get cols event ''Request ID'' (Some ''N/A''),
      Event_Count = None,
      Request_IDs = None\<rparr>"

fun fallback_loop ::
  "string list \<Rightarrow> string \<Rightarrow> (string \<times> string) list \<Rightarrow> signin list \<Rightarrow>
   az_session list \<times> (string \<times> string) list" where
  "fallback_loop cols user cache [] = ([], cache)"
| "fallback_loop cols user cache (event # events) =
     (let (vm_name, cache') = generate_vm_name cache ''Unknown'';
          session = fallback_session cols user vm_name event;
          (sessions, cache'') = fallback_loop cols user cache' events
      in (session # sessions, cache''))"

text \<open>
  The grouped branch, for one device group of one user. The group is sorted by its
  instants first; \<open>sort_key\<close> keeps rows of equal instants in input order.
\<close>

definition device_session ::
  "string list \<Rightarrow> string \<Rightarrow> string \<Rightarrow> string \<Rightarrow> signin list \<Rightarrow> az_session" where
  "device_session cols user device_id vm_name grp =
     (let device_group = sort_key Date grp in
      \<lparr>az_User = user,
       VM_Identifier = device_id,
       VM_Name = vm_name,
       Session_Start = Min (set (map Date device_group)),
       Session_End = Max (set (map Date device_group)) + Timedelta_minutes 30,
       IP_Address = first_cell (group_get cols device_group ''IP address''
                      (group_get cols device_group ''ipAddress'' [Some ''N/A''])),
       Application = first_cell (group_get cols device_group ''Application'' [Some ''N/A'']),
       Request_ID = None,
       Event_Count = Some (length device_group),
       Request_IDs = Some (join '', '' (take 3 (map astype_str
                      (group_get cols device_group ''Request ID'' [Some ''N/A'']))))\<rparr>)"

fun device_loop ::
  "string list \<Rightarrow> string \<Rightarrow> (string \<times> string) list \<Rightarrow> (string \<times> signin list) list \<Rightarrow>
   az_session list \<times> (string \<times> string) list" where
  "device_loop cols user cache [] = ([], cache)"
| "device_loop cols user cache ((device_id, grp) # gs) =
     (let (vm_name, cache') = generate_vm_name cache device_id;
          session = device_session cols user device_id vm_name grp;
          (sessions, cache'') = device_loop cols user cache' gs
      in (session # sessions, cache''))"

text \<open>
  The body of the loop over the users. A missing user value selects no row
  (\<open>df[user_col] == user\<close> is false on it), so it yields no session.
\<close>

definition user_sessions ::
  "string list \<Rightarrow> string \<Rightarrow> signin list \<Rightarrow> (string \<times> string) list \<Rightarrow> string option \<Rightarrow>
   az_session list \<times> (string \<times> string) list" where
  "user_sessions cols user_col df cache user =
     (case user of
        None \<Rightarrow> ([], cache)
      | Some u \<Rightarrow>
          let user_events = filter (\<lambda>r. cells r user_col = Some u) df in
          (case az_device_col cols of
             None \<Rightarrow> fallback_loop cols u cache user_events
           | Some device_col \<Rightarrow>
               device_loop cols u cache (groupby (\<lambda>r. cells r device_col) user_events)))"

fun users_loop ::
  "string list \<Rightarrow> string \<Rightarrow> signin list \<Rightarrow> (string \<times> string) list \<Rightarrow> string option list \<Rightarrow>
   az_session list \<times> (string \<times> string) list" where
  "users_loop cols user_col df cache [] = ([], cache)"
| "users_loop cols user_col df cache (user # users) =
     (let (sessions, cache') = user_sessions cols user_col df cache user;
          (rest, cache'') = users_loop cols user_col df cache' users
      in (sessions @ rest, cache''))"

text \<open>
  \<open>AzureCorrelator.generate_user_vm_mapping\<close>. It returns the mapping and the correlator
  with the mapping and the name cache stored. A table without the user column or without
  \<open>Date\<close> is a \<open>KeyError\<close>; so is a run that builds no session, since the final sort then
  finds no column \<open>Session Start\<close>.
\<close>

definition az_generate_user_vm_mapping ::
  "azure_correlator \<Rightarrow> error + (az_session list \<times> azure_correlator)" where
  "az_generate_user_vm_mapping st =
     (case noninteractive_signin_df st of
        None \<Rightarrow> Inl (ValueError ''Non-Interactive Sign-in logs not loaded.'')
      | Some df \<Rightarrow>
          let cols = log_columns df; user_col = az_user_col cols in
          if user_col \<notin> set cols then Inl (KeyError [user_col])
          else
            let unique_users = unique (map (\<lambda>r. cells r user_col) (log_rows df));
                (sessions, cache) =
                   users_loop cols user_col (log_rows df) (vm_name_mapping st) unique_users
            in if sessions = [] then Inl (KeyError [''Session Start''])
               else if ''Date'' \<notin> set cols then Inl (KeyError [''Date''])
               else
                 let mapping_df = sort_key Session_Start sessions
                 in Inr (mapping_df, st\<lparr>user_vm_mapping := Some mapping_df, vm_name_mapping := cache\<rparr>))"



record concurrent =
  VM :: string
  User1 :: string
  User2 :: string
  Overlap_Start :: timestamp
  Overlap_End :: timestamp







text \<open>A loop whose body may raise stops at the first error.\<close>

fun traverse :: "('a \<Rightarrow> error + 'b list) \<Rightarrow> 'a list \<Rightarrow> error + 'b list" where
  "traverse f [] = Inr []"
| "traverse f (x # xs) =
     (case f x of
        Inl e \<Rightarrow> Inl e
      | Inr ys \<Rightarrow> (case traverse f xs of Inl e \<Rightarrow> Inl e | Inr zs \<Rightarrow> Inr (ys @ zs)))"











section \<open>AWSCorrelator (aws_correlator.py)\<close>

text \<open>
  A login event of the session broker: its instant (\<open>time\<close>), its workspace and its other
  cells by column name. A DNS query row: the label of the user whose file it came from,
  the name queried (missing when the payload had none), its instant and the instance
  identifier taken from \<open>srcids\<close>. A network-flow row: the user label, the destination
  port as the file gave it (a number or text), the byte count as \<open>pd.to_numeric\<close> with
  \<open>errors='coerce'\<close> reads it (\<open>None\<close> when it cannot), the instant and the source
  address. Each table lists the optional columns it has.
\<close>

record login_event =
  time :: timestamp
  workspaceId :: string
  ev_cells :: "string \<Rightarrow> string option"

record eventbridge_log =
  eb_columns :: "string list"
  eb_rows :: "login_event list"

record dns_query =
  user_label :: string
  query_name :: "string option"
  query_timestamp :: timestamp
  instance_id :: "string option"

record query_log =
  ql_columns :: "string list"
  ql_rows :: "dns_query list"

datatype port = PortInt int | PortStr string

record flow =
  f_user_label :: string
  dstport :: "port option"
  bytes :: "int option"
  f_timestamp :: timestamp
  srcaddr :: "string option"

record vpc_log =
  vpc_columns :: "string list"
  vpc_rows :: "flow list"

record mapping_info =
  mi_username :: string
  mi_display_name :: string
  mi_user_label :: string

datatype login_time = LoginText "string option" | LoginInstant timestamp

record aws_session =
  aws_User :: string
  Username :: string
  Display_Name :: string
  Workspace_ID :: string
  Client_IP :: "string option"
  Action :: "string option"
  Login_Time :: login_time
  Platform :: "string option"
  Product :: "string option"
  aws_Session_Start :: timestamp
  aws_Session_End :: timestamp

datatype stat = NA | Stat real

record aws_activity =
  aws_Activity_Type :: string
  aws_act_User :: string
  Domain :: "string option"
  Query_Count :: "nat option"
  aws_Start_Time :: "timestamp option"
  aws_End_Time :: "timestamp option"
  Total_Bytes :: "int option"
  Port :: "int option"
  aws_Attempts :: "nat option"
  Source_IPs :: "string option"
  Avg_Interval :: "stat option"
  Std_Interval :: "stat option"
  aws_Details :: "string option"

record aws_correlator =
  eventbridge_df :: "eventbridge_log option"
  query_logs_df :: "query_log option"
  vpc_logs_df :: "vpc_log option"
  aws_user_vm_mapping :: "aws_session list option"
  aws_activity_timeline :: "aws_activity list option"
  workspace_user_mapping :: "(string \<times> mapping_info) list"

definition aws_init :: aws_correlator where
  "aws_init =
     \<lparr>eventbridge_df = None, query_logs_df = None, vpc_logs_df = None,
      aws_user_vm_mapping = None, aws_activity_timeline = None, workspace_user_mapping = []\<rparr>"

text \<open>\<open>sorted(df[col].unique())\<close>.\<close>

definition sorted_unique :: "string list \<Rightarrow> string list" where
  "sorted_unique xs = sort (unique xs)"

definition user_labels_of :: "query_log \<Rightarrow> string list" where
  "user_labels_of ql = sorted_unique (map user_label (ql_rows ql))"

definition workspace_ids_of :: "eventbridge_log \<Rightarrow> string list" where
  "workspace_ids_of eb = sorted_unique (map workspaceId (eb_rows eb))"

text \<open>
  Method 1 of the identity resolution. The dictionary \<open>workspace_user_map\<close> is an
  association list; \<open>AList.update\<close> is the assignment \<open>workspace_user_map[ws_id] = user_label\<close>.
  For one instance identifier the inner loop stops at the first workspace that contains
  it or is contained in it.
\<close>

definition instance_ids_of :: "query_log \<Rightarrow> string \<Rightarrow> string list" where
  "instance_ids_of ql u =
     unique (List.map_filter instance_id (filter (\<lambda>q. user_label q = u) (ql_rows ql)))"

definition match_workspace :: "string list \<Rightarrow> string \<Rightarrow> string option" where
  "match_workspace workspace_ids iid =
     find (\<lambda>ws_id. str_in iid ws_id \<or> str_in ws_id iid) workspace_ids"

definition match_by_instance_id ::
  "query_log \<Rightarrow> string list \<Rightarrow> string list \<Rightarrow> (string \<times> string) list \<Rightarrow> (string \<times> string) list" where
  "match_by_instance_id ql user_labels workspace_ids m0 =
     fold (\<lambda>u m.
        fold (\<lambda>iid m'.
          (case match_workspace workspace_ids iid of
             None \<Rightarrow> m'
           | Some ws_id \<Rightarrow> AList.update ws_id u m')) (instance_ids_of ql u) m)
       user_labels m0"

text \<open>Method 2: the i-th workspace gets the i-th user label, while there is one.\<close>

definition map_by_order :: "string list \<Rightarrow> string list \<Rightarrow> (string \<times> string) list" where
  "map_by_order user_labels workspace_ids =
     fold (\<lambda>(i, ws_id) m. if i < length user_labels then AList.update ws_id (user_labels ! i) m else m)
       (enumerate 0 workspace_ids) []"

text \<open>Method 1 runs only when the query table has the column \<open>instance_id\<close>.\<close>

definition instance_linkage :: "query_log \<Rightarrow> eventbridge_log \<Rightarrow> (string \<times> string) list" where
  "instance_linkage ql eb =
     (if ''instance_id'' \<in> set (ql_columns ql)
      then match_by_instance_id ql (user_labels_of ql) (workspace_ids_of eb) []
      else [])"

text \<open>
  The dictionary the session-mapping builder resolves users with: empty without query
  logs, else the result of method 1, else, when that is empty, the result of method 2.
\<close>

definition build_workspace_user_map :: "query_log option \<Rightarrow> eventbridge_log \<Rightarrow> (string \<times> string) list" where
  "build_workspace_user_map qlo eb =
     (case qlo of
        None \<Rightarrow> []
      | Some ql \<Rightarrow>
          let m = instance_linkage ql eb
          in if m = [] then map_by_order (user_labels_of ql) (workspace_ids_of eb) else m)"

definition login_get :: "string list \<Rightarrow> login_event \<Rightarrow> string \<Rightarrow> string option \<Rightarrow> string option" where
  "login_get cols event c dflt = (if c \<in> set cols then ev_cells event c else dflt)"

definition aws_session_of ::
  "string list \<Rightarrow> string \<Rightarrow> string \<Rightarrow> string \<Rightarrow> string \<Rightarrow> login_event \<Rightarrow> aws_session" where
  "aws_session_of cols u username display_name workspace_id event =
     \<lparr>aws_User = u,
      Username = username,
      Display_Name = display_name,
      Workspace_ID = workspace_id,
      Client_IP = login_get cols event ''clientIpAddress'' (Some ''N/A''),
      Action = login_get cols event ''actionType'' (Some ''N/A''),
      Login_Time = (if ''loginTime'' \<in> set cols then LoginText (ev_cells event ''loginTime'')
                    else LoginInstant (time event)),
      Platform = login_get cols event ''clientPlatform'' (Some ''N/A''),
      Product = login_get cols event ''workspacesClientProductName'' (Some ''N/A''),
      aws_Session_Start = time event,
      aws_Session_End = time event + Timedelta_hours 1\<rparr>"

text \<open>The body of the loop over the workspace groups.\<close>

definition workspace_sessions ::
  "string list \<Rightarrow> (string \<times> string) list \<Rightarrow> (string \<times> mapping_info) list \<Rightarrow>
   string \<times> login_event list \<Rightarrow> aws_session list" where
  "workspace_sessions cols workspace_user_map wum wg =
     (case wg of (workspace_id, grp) \<Rightarrow>
        let grp' = sort_key time grp;
            u = (case map_of workspace_user_map workspace_id of None \<Rightarrow> ''Unknown'' | Some l \<Rightarrow> l);
            username = (case map_of wum workspace_id of
                          None \<Rightarrow> u
                        | Some info \<Rightarrow> if mi_username info \<noteq> [] then mi_username info else u);
            display_name = (case map_of wum workspace_id of
                          None \<Rightarrow> u
                        | Some info \<Rightarrow> if mi_display_name info \<noteq> [] then mi_display_name info else u)
        in map (aws_session_of cols u username display_name workspace_id) grp')"

text \<open>\<open>AWSCorrelator.generate_user_vm_mapping\<close>: the mapping and the correlator that stores it.\<close>

definition aws_generate_user_vm_mapping ::
  "aws_correlator \<Rightarrow> error + (aws_session list \<times> aws_correlator)" where
  "aws_generate_user_vm_mapping st =
     (case eventbridge_df st of
        None \<Rightarrow> Inl (ValueError ''Event Bridge logs not loaded'')
      | Some eb \<Rightarrow>
          let workspace_user_map = build_workspace_user_map (query_logs_df st) eb;
              sessions = concat (map (workspace_sessions (eb_columns eb) workspace_user_map
                                        (workspace_user_mapping st))
                                   (groupby (\<lambda>e. Some (workspaceId e)) (eb_rows eb)))
          in Inr (sessions, st\<lparr>aws_user_vm_mapping := Some sessions\<rparr>))"













text \<open>
  The interval statistics of the beaconing detector: the differences of consecutive
  sorted instants in seconds, their mean, and their sample standard deviation (divisor
  \<open>n - 1\<close>), which is NaN, here \<open>None\<close>, for fewer than two intervals. They are computed
  over the reals.
\<close>

definition intervals_of :: "timestamp list \<Rightarrow> real list" where
  "intervals_of timestamps = map (\<lambda>(a, b). total_seconds (b - a)) (zip timestamps (tl timestamps))"

definition mean :: "real list \<Rightarrow> real" where
  "mean xs = sum_list xs / real (length xs)"

definition std :: "real list \<Rightarrow> real option" where
  "std xs =
     (if length xs < 2 then None
      else Some (sqrt (sum_list (map (\<lambda>x. (x - mean xs)\<^sup>2) xs) / real (length xs - 1))))"

definition exclude_domains :: "string list" where
  "exclude_domains = [''microsoft.com'', ''windows.com'', ''amazon.com'', ''amazonaws.com'']"

definition is_suspicious_pattern :: "string \<Rightarrow> bool" where
  "is_suspicious_pattern name =
     (str_in ''c2-server'' (lower name) \<or> str_in ''c2server'' (lower name))"

definition first_instant :: "timestamp list \<Rightarrow> timestamp option" where
  "first_instant ts = (case ts of [] \<Rightarrow> None | t # _ \<Rightarrow> Some t)"

definition last_instant :: "timestamp list \<Rightarrow> timestamp option" where
  "last_instant ts = (case ts of [] \<Rightarrow> None | _ \<Rightarrow> Some (last ts))"

text \<open>
  The body of the loop over the query names of one user. \<open>round(x, 2)\<close> of a float is the
  parameter \<open>round2\<close>. A comparison with NaN is false.
\<close>

definition beaconing_of_group ::
  "(real \<Rightarrow> real) \<Rightarrow> int \<Rightarrow> int \<Rightarrow> string \<Rightarrow> string \<times> dns_query list \<Rightarrow> aws_activity list" where
  "beaconing_of_group round2 interval_threshold min_occurrences u ng =
     (case ng of (name, query_group) \<Rightarrow>
        if list_ex (\<lambda>exc. str_in exc name) exclude_domains then []
        else
          let timestamps = sort (map query_timestamp query_group) in
          if is_suspicious_pattern name then
            [\<lparr>aws_Activity_Type = ''Periodic Domain Query'',
              aws_act_User = u,
              Domain = Some name,
              Query_Count = Some (length query_group),
              aws_Start_Time = first_instant timestamps,
              aws_End_Time = (if length timestamps > 1 then last_instant timestamps
                              else first_instant timestamps),
              Total_Bytes = None, Port = None, aws_Attempts = None, Source_IPs = None,
              Avg_Interval = Some NA,
              Std_Interval = Some NA,
              aws_Details = None\<rparr>]
          else if int (length query_group) < min_occurrences then []
          else
            let intervals = intervals_of timestamps in
            if length intervals > 0 then
              (let avg_interval = mean intervals; std_interval = std intervals in
               if avg_interval \<le> real_of_int interval_threshold \<and>
                  (case std_interval of None \<Rightarrow> False | Some sd \<Rightarrow> sd < 10)
               then
                 [\<lparr>aws_Activity_Type = ''Periodic Domain Query'',
                   aws_act_User = u,
                   Domain = Some name,
                   Query_Count = Some (length query_group),
                   aws_Start_Time = first_instant timestamps,
                   aws_End_Time = last_instant timestamps,
                   Total_Bytes = None, Port = None, aws_Attempts = None, Source_IPs = None,
                   Avg_Interval = Some (Stat (round2 avg_interval)),
                   Std_Interval = map_option (\<lambda>sd. Stat (round2 sd)) std_interval,
                   aws_Details = None\<rparr>]
               else [])
            else [])"

text \<open>
  \<open>AWSCorrelator.detect_c2_beaconing(interval_threshold, min_occurrences)\<close>; the defaults
  are 100 and 1.
\<close>

definition detect_c2_beaconing ::
  "(real \<Rightarrow> real) \<Rightarrow> aws_correlator \<Rightarrow> int \<Rightarrow> int \<Rightarrow> error + aws_activity list" where
  "detect_c2_beaconing round2 st interval_threshold min_occurrences =
     (case query_logs_df st of
        None \<Rightarrow> Inr []
      | Some ql \<Rightarrow>
          traverse (\<lambda>(u, user_group).
              if ''query_name'' \<notin> set (ql_columns ql) then Inl (KeyError [''query_name''])
              else Inr (concat (map (beaconing_of_group round2 interval_threshold min_occurrences u)
                                  (groupby query_name user_group))))
            (groupby (\<lambda>q. Some (user_label q)) (ql_rows ql)))"


section \<open>Notions the properties are stated with\<close>



text \<open>The (user, device) group of a session: the sign-in rows of its user on its device.\<close>

definition az_group_of :: "signin_log \<Rightarrow> string \<Rightarrow> az_session \<Rightarrow> signin list" where
  "az_group_of df device_col s =
     filter (\<lambda>r. cells r (az_user_col (log_columns df)) = Some (az_User s) \<and>
                 cells r device_col = Some (VM_Identifier s)) (log_rows df)"




text \<open>
  The query group of a user and a domain name, the inter-query intervals the beaconing
  detector computes for it, and what it means that a detector result flags the pair as a
  \<open>Periodic Domain Query\<close>.
\<close>

definition query_group :: "query_log \<Rightarrow> string \<Rightarrow> string \<Rightarrow> dns_query list" where
  "query_group ql u name =
     filter (\<lambda>q. query_name q = Some name) (filter (\<lambda>q. user_label q = u) (ql_rows ql))"

definition group_intervals :: "query_log \<Rightarrow> string \<Rightarrow> string \<Rightarrow> real list" where
  "group_intervals ql u name = intervals_of (sort (map query_timestamp (query_group ql u name)))"

definition flagged_periodic :: "aws_activity list \<Rightarrow> string \<Rightarrow> string \<Rightarrow> bool" where
  "flagged_periodic acts u name =
     list_ex (\<lambda>a. aws_Activity_Type a = ''Periodic Domain Query'' \<and> aws_act_User a = u \<and>
                  Domain a = Some name) acts"

section \<open>Example inputs\<close>



text \<open>
  The end-to-end scenarios of the specification. AWS: one login event for the workspace
  \<open>ws-1\<close> at 2025-01-01T00:00:00Z, one query of \<open>USER_A\<close> for \<open>drive.google.com\<close> at
  the same instant, one flow of \<open>USER_A\<close> to port 443 with 500000 bytes. Azure: three
  sign-in events of one user on the device \<open>dev-1\<close> at 09:00, 09:10 and 09:20.
\<close>

definition aws_example :: aws_correlator where
  "aws_example =
     \<lparr>eventbridge_df = Some
        \<lparr>eb_columns = [''clientIpAddress'', ''actionType''],
         eb_rows = [\<lparr>time = 1735689600000000000, workspaceId = ''ws-1'',
                     ev_cells = [''clientIpAddress'' \<mapsto> ''203.0.113.7'',
                                 ''actionType'' \<mapsto> ''successfulLogin'']\<rparr>]\<rparr>,
      query_logs_df = Some
        \<lparr>ql_columns = [''query_name''],
         ql_rows = [\<lparr>user_label = ''USER_A'', query_name = Some ''drive.google.com'',
                     query_timestamp = 1735689600000000000, instance_id = None\<rparr>]\<rparr>,
      vpc_logs_df = Some
        \<lparr>vpc_columns = [''dstport'', ''bytes'', ''srcaddr'', ''timestamp''],
         vpc_rows = [\<lparr>f_user_label = ''USER_A'', dstport = Some (PortInt 443),
                      bytes = Some 500000, f_timestamp = 1735689600000000000,
                      srcaddr = Some ''10.0.0.5''\<rparr>]\<rparr>,
      aws_user_vm_mapping = None,
      aws_activity_timeline = None,
      workspace_user_mapping = []\<rparr>"

definition aws_example_session :: aws_session where
  "aws_example_session =
     \<lparr>aws_User = ''USER_A'', Username = ''USER_A'', Display_Name = ''USER_A'',
      Workspace_ID = ''ws-1'', Client_IP = Some ''203.0.113.7'',
      Action = Some ''successfulLogin'', Login_Time = LoginInstant 1735689600000000000,
      Platform = Some ''N/A'', Product = Some ''N/A'',
      aws_Session_Start = 1735689600000000000, aws_Session_End = 1735693200000000000\<rparr>"

definition az_example_event :: "timestamp \<Rightarrow> signin" where
  "az_example_event t =
     \<lparr>Date = t, cells = [''User'' \<mapsto> ''user@corp.com'', ''Device ID'' \<mapsto> ''dev-1'']\<rparr>"

definition az_example_log :: signin_log where
  "az_example_log =
     \<lparr>log_columns = [''Date'', ''User'', ''Device ID''],
      log_rows = [az_example_event 1735722000000000000, az_example_event 1735722600000000000,
                  az_example_event 1735723200000000000]\<rparr>"

definition az_example :: azure_correlator where
  "az_example = azure_init\<lparr>noninteractive_signin_df := Some az_example_log\<rparr>"

definition az_example_session :: az_session where
  "az_example_session =
     \<lparr>az_User = ''user@corp.com'', VM_Identifier = ''dev-1'', VM_Name = ''VM-1'',
      Session_Start = 1735722000000000000, Session_End = 1735725000000000000,
      IP_Address = Some ''N/A'', Application = Some ''N/A'', Request_ID = None,
      Event_Count = Some 3, Request_IDs = Some ''N/A''\<rparr>"



text \<open>A query table of one user asking for one harmless name at the given instants.\<close>

definition beacon_log :: "timestamp list \<Rightarrow> query_log" where
  "beacon_log ts =
     \<lparr>ql_columns = [''query_name''],
      ql_rows = map (\<lambda>t. \<lparr>user_label = ''USER_A'', query_name = Some ''updates.example.org'',
                            query_timestamp = t, instance_id = None\<rparr>) ts\<rparr>"

definition beacon_example :: "timestamp list \<Rightarrow> aws_correlator" where
  "beacon_example ts = aws_init\<lparr>query_logs_df := Some (beacon_log ts)\<rparr>"




definition stamps_pair :: "timestamp list" where
  "stamps_pair = [0, 50000000000]"

text \<open>
  Two users and two workspaces whose instance identifiers match no workspace identifier,
  with the rows of both tables in two different orders.
\<close>

definition fallback_query :: "string \<Rightarrow> string \<Rightarrow> dns_query" where
  "fallback_query u iid =
     \<lparr>user_label = u, query_name = Some ''example.org'', query_timestamp = 0,
      instance_id = Some iid\<rparr>"

definition fallback_queries :: query_log where
  "fallback_queries =
     \<lparr>ql_columns = [''query_name'', ''instance_id''],
      ql_rows = [fallback_query ''USER_B'' ''i-0bbb'', fallback_query ''USER_A'' ''i-0aaa'']\<rparr>"

definition fallback_queries_reordered :: query_log where
  "fallback_queries_reordered =
     \<lparr>ql_columns = [''query_name'', ''instance_id''],
      ql_rows = [fallback_query ''USER_A'' ''i-0aaa'', fallback_query ''USER_B'' ''i-0bbb'']\<rparr>"

definition fallback_login :: "string \<Rightarrow> login_event" where
  "fallback_login w = \<lparr>time = 0, workspaceId = w, ev_cells = Map.empty\<rparr>"

definition fallback_events :: eventbridge_log where
  "fallback_events =
     \<lparr>eb_columns = [], eb_rows = [fallback_login ''ws-222'', fallback_login ''ws-111'']\<rparr>"

definition fallback_events_reordered :: eventbridge_log where
  "fallback_events_reordered =
     \<lparr>eb_columns = [], eb_rows = [fallback_login ''ws-111'', fallback_login ''ws-222'']\<rparr>"

section \<open>Properties of the Deduplicator\<close>

lemma keep_first_subset: "set (keep_first key seen rs) \<subseteq> set rs"
  by (induction rs arbitrary: seen) auto

lemma keep_first_distinct:
  "distinct (map key (keep_first key seen rs)) \<and> key ` set (keep_first key seen rs) \<inter> set seen = {}"
proof (induction rs arbitrary: seen)
  case Nil
  show ?case by simp
next
  case (Cons r rs)
  show ?case
  proof (cases "key r \<in> set seen")
    case True
    then show ?thesis using Cons.IH [of seen] by simp
  next
    case False
    then show ?thesis using Cons.IH [of "key r # seen"] by auto
  qed
qed


lemma keep_first_idem:
  "keep_first key seen (keep_first key seen rs) = keep_first key seen rs"
proof (induction rs arbitrary: seen)
  case Nil
  show ?case by simp
next
  case (Cons r rs)
  show ?case
  proof (cases "key r \<in> set seen")
    case True
    then show ?thesis using Cons.IH [of seen] by simp
  next
    case False
    then show ?thesis using Cons.IH [of "key r # seen"] by simp
  qed
qed

lemma keep_false_idem:
  fixes key :: "'r \<Rightarrow> 'k"
  defines "once rs \<equiv> (\<lambda>r. length (filter (\<lambda>r'. key r' = key r) rs) = 1)"
  shows "filter (once (filter (once rs) rs)) (filter (once rs) rs) = filter (once rs) rs"
proof -
  have "once (filter (once rs) rs) r" if "r \<in> set rs" "once rs r" for r
  proof -
    have "filter (\<lambda>r'. key r' = key r) (filter (once rs) rs)
        = filter (\<lambda>r'. key r' = key r) rs"
      unfolding filter_filter
      by (rule filter_cong) (use that in \<open>auto simp: once_def\<close>)
    then show ?thesis using that by (simp add: once_def)
  qed
  then have "filter (\<lambda>x. once rs x \<and> once (filter (once rs) rs) x) rs = filter (once rs) rs"
    by (intro filter_cong) auto
  then show ?thesis by simp
qed

lemma drop_duplicates_rows_idem:
  "drop_duplicates_rows key kp (drop_duplicates_rows key kp rs) = drop_duplicates_rows key kp rs"
proof (cases kp)
  case KeepFirst
  then show ?thesis by (simp add: drop_duplicates_rows_def keep_first_idem)
next
  case KeepLast
  then show ?thesis by (simp add: drop_duplicates_rows_def keep_first_idem)
next
  case KeepFalse
  then show ?thesis using keep_false_idem [of key rs] by (simp add: drop_duplicates_rows_def)
qed

lemma df_drop_duplicates_idem:
  assumes "df_drop_duplicates df subs kp = Inr df'"
  shows "df_drop_duplicates df' subs kp = Inr df'"
proof (cases "columns df = [] \<or> rows df = []")
  case True
  then have "df' = df" using assms by (simp add: df_drop_duplicates_def)
  then show ?thesis using assms by simp
next
  case False
  define ks where "ks = (case subs of None \<Rightarrow> columns df | Some ks \<Rightarrow> ks)"
  have sub: "set ks \<subseteq> set (columns df)"
    using assms False by (auto simp: df_drop_duplicates_def ks_def Let_def split: if_splits)
  have df': "df' = df\<lparr>rows := drop_duplicates_rows (row_key ks) kp (rows df)\<rparr>"
    using assms False sub by (auto simp: df_drop_duplicates_def ks_def Let_def split: if_splits)
  have cols: "columns df' = columns df" by (simp add: df')
  have ks': "(case subs of None \<Rightarrow> columns df' | Some ks \<Rightarrow> ks) = ks"
    by (cases subs) (simp_all add: ks_def cols)
  have "df'\<lparr>rows := drop_duplicates_rows (row_key ks) kp (rows df')\<rparr> = df'"
    by (simp add: df' drop_duplicates_rows_idem)
  then show ?thesis
    using sub by (simp add: df_drop_duplicates_def ks' cols Let_def)
qed

text \<open>
  C9. Deduplication is idempotent: when \<open>remove_duplicates\<close> returns a frame, running it
  again on that frame with the same key columns and the same \<open>keep\<close> returns the same
  frame. This holds for a key tuple, for no key restriction (\<open>None\<close> or the empty list,
  full-row deduplication), and for every value of \<open>keep\<close>, \<open>first\<close> included.
\<close>

theorem remove_duplicates_idempotent:
  "remove_duplicates df subs kp = Inr df' \<Longrightarrow> remove_duplicates df' subs kp = Inr df'"
  unfolding remove_duplicates_def
  by (auto split: if_splits intro: df_drop_duplicates_idem)

theorem remove_duplicates_idempotent_witness:
  "remove_duplicates
     \<lparr>columns = [''id'', ''v''],
      rows = [[''id'' \<mapsto> 1, ''v'' \<mapsto> 10], [''id'' \<mapsto> 1, ''v'' \<mapsto> 20], [''id'' \<mapsto> 2, ''v'' \<mapsto> (30::int)]]\<rparr>
     (Some [''id'']) KeepFirst
   = Inr \<lparr>columns = [''id'', ''v''],
          rows = [[''id'' \<mapsto> 1, ''v'' \<mapsto> 10], [''id'' \<mapsto> 2, ''v'' \<mapsto> 30]]\<rparr>
   \<and> remove_duplicates
     \<lparr>columns = [''id'', ''v''],
      rows = [[''id'' \<mapsto> 1, ''v'' \<mapsto> 10], [''id'' \<mapsto> 2, ''v'' \<mapsto> (30::int)]]\<rparr>
     (Some [''id'']) KeepFirst
   = Inr \<lparr>columns = [''id'', ''v''],
          rows = [[''id'' \<mapsto> 1, ''v'' \<mapsto> 10], [''id'' \<mapsto> 2, ''v'' \<mapsto> 30]]\<rparr>"
proof -
  have h: "remove_duplicates
     \<lparr>columns = [''id'', ''v''],
      rows = [[''id'' \<mapsto> 1, ''v'' \<mapsto> 10], [''id'' \<mapsto> 1, ''v'' \<mapsto> 20], [''id'' \<mapsto> 2, ''v'' \<mapsto> (30::int)]]\<rparr>
     (Some [''id'']) KeepFirst
   = Inr \<lparr>columns = [''id'', ''v''],
          rows = [[''id'' \<mapsto> 1, ''v'' \<mapsto> 10], [''id'' \<mapsto> 2, ''v'' \<mapsto> 30]]\<rparr>"
    by (simp add: remove_duplicates_def df_drop_duplicates_def drop_duplicates_rows_def row_key_def)
  show ?thesis using h remove_duplicates_idempotent [OF h] by simp
qed

text \<open>
  Where \<open>merge_and_deduplicate\<close> is given two tables or more and returns, the result went
  through the full-row pass: it has no column, or no two of its rows are identical.
\<close>

lemma merge_two_or_more_deduplicated:
  assumes "merge_and_deduplicate pd_merge (a # b # dfs) merge_on h = Inr r"
  shows "columns r = [] \<or> no_duplicate_rows r"
proof -
  obtain m where m: "remove_duplicates m None KeepFirst = Inr r"
    using assms by (auto simp: merge_and_deduplicate_def split: sum.splits)
  show ?thesis
  proof (cases "columns m = [] \<or> rows m = []")
    case True
    then have "r = m" using m by (simp add: remove_duplicates_def df_drop_duplicates_def)
    then show ?thesis using True by (auto simp: no_duplicate_rows_def)
  next
    case False
    then have "r = m\<lparr>rows := keep_first (row_key (columns m)) [] (rows m)\<rparr>"
      using m by (simp add: remove_duplicates_def df_drop_duplicates_def drop_duplicates_rows_def)
    then show ?thesis
      using keep_first_distinct [of "row_key (columns m)" "[]" "rows m"]
      by (simp add: no_duplicate_rows_def)
  qed
qed

text \<open>
  C8. The final full-row deduplication of \<open>merge_and_deduplicate\<close> is skipped for a list
  of exactly one table: the early return \<open>if len(dfs) == 1: return dfs[0]\<close> hands the
  table back as it came. On the one-table list below, whose table has the row \<open>a = 1\<close>
  twice, the function returns both rows.
\<close>

theorem merge_single_table_not_deduplicated:
  "merge_and_deduplicate pd_merge
     [\<lparr>columns = [''a''], rows = [[''a'' \<mapsto> (1::int)], [''a'' \<mapsto> 1]]\<rparr>] None Outer
   = Inr \<lparr>columns = [''a''], rows = [[''a'' \<mapsto> 1], [''a'' \<mapsto> 1]]\<rparr>
   \<and> \<not> no_duplicate_rows \<lparr>columns = [''a''], rows = [[''a'' \<mapsto> (1::int)], [''a'' \<mapsto> 1]]\<rparr>"
  by (simp add: merge_and_deduplicate_def no_duplicate_rows_def row_key_def)

section \<open>Properties of the AzureCorrelator\<close>

lemma keep_first_set: "set (keep_first (\<lambda>x. x) seen xs) = set xs - set seen"
  by (induction xs arbitrary: seen) auto

lemma set_unique: "set (unique xs) = set xs"
  by (simp add: unique_def keep_first_set)

lemma distinct_unique: "distinct (unique xs)"
  using keep_first_distinct [of "\<lambda>x. x" "[]" xs] by (simp add: unique_def)














section \<open>Session windows\<close>

lemma groupby_member:
  assumes "(k, grp) \<in> set (groupby key rs)"
  shows "grp = filter (\<lambda>r. key r = Some k) rs \<and> grp \<noteq> []"
proof -
  have k: "k \<in> set (List.map_filter key rs)" and g: "grp = filter (\<lambda>r. key r = Some k) rs"
    using assms by (auto simp: groupby_def)
  from k obtain r where "r \<in> set rs" "key r = Some k"
    by (auto simp: List.map_filter_def)
  then have "r \<in> set (filter (\<lambda>r. key r = Some k) rs)" by simp
  then show ?thesis using g by (metis empty_iff list.set(1))
qed

lemma device_loop_member:
  "s \<in> set (fst (device_loop cols u cache gs)) \<Longrightarrow>
   \<exists>g \<in> set gs. \<exists>vm_name. s = device_session cols u (fst g) vm_name (snd g)"
proof (induction gs arbitrary: cache)
  case Nil
  then show ?case by simp
next
  case (Cons g gs)
  obtain d grp where g: "g = (d, grp)" by (cases g)
  show ?case
    using Cons.prems Cons.IH [of "snd (generate_vm_name cache d)"]
    by (auto simp: g split_beta Let_def)
qed

lemma fallback_loop_member:
  "s \<in> set (fst (fallback_loop cols u cache evs)) \<Longrightarrow>
   \<exists>e \<in> set evs. \<exists>vm_name. s = fallback_session cols u vm_name e"
proof (induction evs arbitrary: cache)
  case Nil
  then show ?case by simp
next
  case (Cons e evs)
  show ?case
    using Cons.prems Cons.IH [of "snd (generate_vm_name cache ''Unknown'')"]
    by (auto simp: split_beta Let_def)
qed

lemma users_loop_member:
  "s \<in> set (fst (users_loop cols user_col df cache users)) \<Longrightarrow>
   \<exists>user \<in> set users. \<exists>cache'. s \<in> set (fst (user_sessions cols user_col df cache' user))"
proof (induction users arbitrary: cache)
  case Nil
  then show ?case by simp
next
  case (Cons user users)
  show ?case
    using Cons.prems Cons.IH [of "snd (user_sessions cols user_col df cache user)"]
    by (auto simp: split_beta Let_def)
qed

lemma user_sessions_grouped:
  assumes "s \<in> set (fst (user_sessions cols user_col df cache user))"
    and "az_device_col cols = Some device_col"
  shows "\<exists>grp. grp = filter (\<lambda>r. cells r user_col = Some (az_User s) \<and>
                               cells r device_col = Some (VM_Identifier s)) df
           \<and> grp \<noteq> []
           \<and> Session_Start s = Min (set (map Date grp))
           \<and> Session_End s = Max (set (map Date grp)) + Timedelta_minutes 30
           \<and> Event_Count s = Some (length grp)"
proof -
  obtain u where u: "user = Some u" using assms(1) by (cases user) (auto simp: user_sessions_def)
  let ?ue = "filter (\<lambda>r. cells r user_col = Some u) df"
  have "s \<in> set (fst (device_loop cols u cache (groupby (\<lambda>r. cells r device_col) ?ue)))"
    using assms by (simp add: user_sessions_def u)
  then obtain d grp vm_name where
    g: "(d, grp) \<in> set (groupby (\<lambda>r. cells r device_col) ?ue)" and
    s: "s = device_session cols u d vm_name grp"
    using device_loop_member by fastforce
  have grp: "grp = filter (\<lambda>r. cells r device_col = Some d) ?ue" "grp \<noteq> []"
    using groupby_member [OF g] by blast+
  have f: "az_User s = u" "VM_Identifier s = d"
    "Session_Start s = Min (set (map Date grp))"
    "Session_End s = Max (set (map Date grp)) + Timedelta_minutes 30"
    "Event_Count s = Some (length grp)"
    by (simp_all add: s device_session_def Let_def)
  have "grp = filter (\<lambda>r. cells r user_col = Some u \<and> cells r device_col = Some d) df"
    using grp(1) by (simp add: conj_commute)
  then show ?thesis using grp(2) f by simp
qed

lemma user_sessions_fallback:
  assumes "s \<in> set (fst (user_sessions cols user_col df cache user))"
    and "az_device_col cols = None"
  shows "\<exists>e \<in> set df. cells e user_col = Some (az_User s) \<and> VM_Identifier s = ''Unknown'' \<and>
           Session_Start s = Date e \<and> Session_End s = Date e + Timedelta_minutes 30"
proof -
  obtain u where u: "user = Some u" using assms(1) by (cases user) (auto simp: user_sessions_def)
  have "s \<in> set (fst (fallback_loop cols u cache (filter (\<lambda>r. cells r user_col = Some u) df)))"
    using assms by (simp add: user_sessions_def u)
  then show ?thesis
    using fallback_loop_member by (fastforce simp: fallback_session_def)
qed

lemma az_generate_sessions:
  assumes "az_generate_user_vm_mapping sz = Inr (mz, sz')"
    and "noninteractive_signin_df sz = Some df" and "s \<in> set mz"
  shows "\<exists>user cache. s \<in> set (fst (user_sessions (log_columns df) (az_user_col (log_columns df))
                                     (log_rows df) cache user))"
proof -
  let ?cols = "log_columns df" and ?uc = "az_user_col (log_columns df)"
  let ?us = "unique (map (\<lambda>r. cells r ?uc) (log_rows df))"
  have "mz = sort_key Session_Start (fst (users_loop ?cols ?uc (log_rows df) (vm_name_mapping sz) ?us))"
    using assms(1,2)
    by (auto simp: az_generate_user_vm_mapping_def Let_def split_beta split: if_splits)
  then have "s \<in> set (fst (users_loop ?cols ?uc (log_rows df) (vm_name_mapping sz) ?us))"
    using assms(3) by simp
  then show ?thesis using users_loop_member by blast
qed

lemma workspace_sessions_end:
  "s \<in> set (workspace_sessions cols workspace_user_map wum wg) \<Longrightarrow>
   aws_Session_End s = aws_Session_Start s + Timedelta_hours 1"
  by (cases wg) (auto simp: workspace_sessions_def Let_def aws_session_of_def)

lemma aws_generate_sessions:
  assumes "aws_generate_user_vm_mapping sa = Inr (ma, sa')" and "s \<in> set ma"
  shows "aws_Session_End s = aws_Session_Start s + Timedelta_hours 1"
proof -
  obtain eb where "eventbridge_df sa = Some eb"
    and "ma = concat (map (workspace_sessions (eb_columns eb)
                             (build_workspace_user_map (query_logs_df sa) eb)
                             (workspace_user_mapping sa))
                        (groupby (\<lambda>e. Some (workspaceId e)) (eb_rows eb)))"
    using assms(1)
    by (auto simp: aws_generate_user_vm_mapping_def Let_def split: option.splits)
  then show ?thesis using assms(2) workspace_sessions_end by auto
qed

lemma aws_example_mapping:
  "aws_generate_user_vm_mapping aws_example
   = Inr ([aws_example_session], aws_example\<lparr>aws_user_vm_mapping := Some [aws_example_session]\<rparr>)"
  by (simp add: aws_generate_user_vm_mapping_def aws_example_def aws_example_session_def
      build_workspace_user_map_def instance_linkage_def user_labels_of_def workspace_ids_of_def sorted_unique_def
      unique_def map_by_order_def enumerate_eq_zip groupby_def List.map_filter_simps
      workspace_sessions_def aws_session_of_def login_get_def Timedelta_hours_def Let_def)

lemma az_example_mapping:
  "az_generate_user_vm_mapping az_example
   = Inr ([az_example_session],
          az_example\<lparr>user_vm_mapping := Some [az_example_session],
                     vm_name_mapping := [(''dev-1'', ''VM-1'')]\<rparr>)"
  by (simp add: az_generate_user_vm_mapping_def az_example_def azure_init_def az_example_log_def
      az_example_event_def az_example_session_def az_user_col_def az_device_col_def unique_def
      user_sessions_def groupby_def List.map_filter_simps generate_vm_name_def
      device_session_def group_get_def first_cell_def astype_str_def Timedelta_minutes_def Let_def)

text \<open>
  C4. Every session the AWS session-mapping builder returns ends exactly one hour after
  it starts. Every session the Azure builder returns ends 30 minutes after the latest
  instant of its (user, device) group, which is not empty; where the table has no device
  column, the session is that of one event of its user and ends 30 minutes after it.
\<close>

theorem session_end_estimate:
  "(aws_generate_user_vm_mapping sa = Inr (ma, sa') \<longrightarrow>
      (\<forall>s \<in> set ma. aws_Session_End s = aws_Session_Start s + Timedelta_hours 1))
   \<and> (az_generate_user_vm_mapping sz = Inr (mz, sz') \<and> noninteractive_signin_df sz = Some df \<longrightarrow>
      (\<forall>s \<in> set mz.
         (case az_device_col (log_columns df) of
            Some device_col \<Rightarrow>
              az_group_of df device_col s \<noteq> [] \<and>
              Session_End s = Max (set (map Date (az_group_of df device_col s))) + Timedelta_minutes 30
          | None \<Rightarrow>
              (\<exists>e \<in> set (log_rows df).
                 cells e (az_user_col (log_columns df)) = Some (az_User s) \<and>
                 Session_Start s = Date e \<and>
                 Session_End s = Date e + Timedelta_minutes 30))))"
proof (intro conjI impI ballI)
  fix s assume "aws_generate_user_vm_mapping sa = Inr (ma, sa')" "s \<in> set ma"
  then show "aws_Session_End s = aws_Session_Start s + Timedelta_hours 1"
    by (rule aws_generate_sessions)
next
  fix s
  assume h: "az_generate_user_vm_mapping sz = Inr (mz, sz') \<and> noninteractive_signin_df sz = Some df"
    and s: "s \<in> set mz"
  obtain user cache where us:
    "s \<in> set (fst (user_sessions (log_columns df) (az_user_col (log_columns df))
                      (log_rows df) cache user))"
    using az_generate_sessions h s by blast
  show "case az_device_col (log_columns df) of
            Some device_col \<Rightarrow>
              az_group_of df device_col s \<noteq> [] \<and>
              Session_End s = Max (set (map Date (az_group_of df device_col s))) + Timedelta_minutes 30
          | None \<Rightarrow>
              (\<exists>e \<in> set (log_rows df).
                 cells e (az_user_col (log_columns df)) = Some (az_User s) \<and>
                 Session_Start s = Date e \<and>
                 Session_End s = Date e + Timedelta_minutes 30)"
  proof (cases "az_device_col (log_columns df)")
    case None
    then show ?thesis using user_sessions_fallback [OF us None] by auto
  next
    case (Some device_col)
    then show ?thesis using user_sessions_grouped [OF us Some] by (simp add: az_group_of_def)
  qed
qed

theorem session_end_estimate_witness:
  "aws_generate_user_vm_mapping aws_example
     = Inr ([aws_example_session], aws_example\<lparr>aws_user_vm_mapping := Some [aws_example_session]\<rparr>)
   \<and> aws_Session_End aws_example_session
     = aws_Session_Start aws_example_session + Timedelta_hours 1
   \<and> az_generate_user_vm_mapping az_example
     = Inr ([az_example_session],
            az_example\<lparr>user_vm_mapping := Some [az_example_session],
                       vm_name_mapping := [(''dev-1'', ''VM-1'')]\<rparr>)
   \<and> noninteractive_signin_df az_example = Some az_example_log
   \<and> az_device_col (log_columns az_example_log) = Some ''Device ID''
   \<and> az_group_of az_example_log ''Device ID'' az_example_session = log_rows az_example_log
   \<and> Session_End az_example_session
     = Max (set (map Date (az_group_of az_example_log ''Device ID'' az_example_session)))
       + Timedelta_minutes 30"
proof -
  have d: "noninteractive_signin_df az_example = Some az_example_log"
    by (simp add: az_example_def)
  have c: "az_device_col (log_columns az_example_log) = Some ''Device ID''"
    by (simp add: az_device_col_def az_example_log_def)
  have g: "az_group_of az_example_log ''Device ID'' az_example_session = log_rows az_example_log"
    by (simp add: az_group_of_def az_example_log_def az_example_session_def az_example_event_def
        az_user_col_def)
  show ?thesis
    using session_end_estimate [of aws_example "[aws_example_session]"
        "aws_example\<lparr>aws_user_vm_mapping := Some [aws_example_session]\<rparr>"
        az_example "[az_example_session]"
        "az_example\<lparr>user_vm_mapping := Some [az_example_session],
                     vm_name_mapping := [(''dev-1'', ''VM-1'')]\<rparr>" az_example_log]
      aws_example_mapping az_example_mapping d c g
    by simp
qed

section \<open>Stages called before their inputs exist\<close>






section \<open>The exfiltration detector\<close>

lemma traverse_Inr:
  "(\<And>x. x \<in> set xs \<Longrightarrow> f x = Inr (g x)) \<Longrightarrow> traverse f xs = Inr (concat (map g xs))"
  by (induction xs) auto










section \<open>The beaconing detector\<close>

lemma groupby_iff:
  "(k, grp) \<in> set (groupby key rs) \<longleftrightarrow> grp = filter (\<lambda>r. key r = Some k) rs \<and> grp \<noteq> []"
proof
  assume "(k, grp) \<in> set (groupby key rs)"
  then show "grp = filter (\<lambda>r. key r = Some k) rs \<and> grp \<noteq> []" by (rule groupby_member)
next
  assume a: "grp = filter (\<lambda>r. key r = Some k) rs \<and> grp \<noteq> []"
  then obtain r where "r \<in> set rs" "key r = Some k"
    by (metis (mono_tags, lifting) filter_False)
  then have "k \<in> set (List.map_filter key rs)"
    by (force simp: List.map_filter_def)
  then show "(k, grp) \<in> set (groupby key rs)" using a by (auto simp: groupby_def)
qed

lemma beaconing_of_group_fields:
  "a \<in> set (beaconing_of_group round2 thr mo u (name, grp)) \<Longrightarrow>
   aws_Activity_Type a = ''Periodic Domain Query'' \<and> aws_act_User a = u \<and> Domain a = Some name"
  by (auto simp: beaconing_of_group_def Let_def split: if_splits)


lemma detect_c2_beaconing_eq:
  assumes "query_logs_df st = Some ql" "''query_name'' \<in> set (ql_columns ql)"
  shows "detect_c2_beaconing round2 st thr mo
    = Inr (concat (map (\<lambda>(u, user_group).
             concat (map (beaconing_of_group round2 thr mo u) (groupby query_name user_group)))
           (groupby (\<lambda>q. Some (user_label q)) (ql_rows ql))))"
proof -
  have "traverse (\<lambda>(u, user_group).
              if ''query_name'' \<notin> set (ql_columns ql) then Inl (KeyError [''query_name''])
              else Inr (concat (map (beaconing_of_group round2 thr mo u)
                                  (groupby query_name user_group))))
            (groupby (\<lambda>q. Some (user_label q)) (ql_rows ql))
     = Inr (concat (map (\<lambda>(u, user_group).
             concat (map (beaconing_of_group round2 thr mo u) (groupby query_name user_group)))
           (groupby (\<lambda>q. Some (user_label q)) (ql_rows ql))))"
    by (rule traverse_Inr) (auto simp: assms(2))
  then show ?thesis using assms(1) by (simp add: detect_c2_beaconing_def)
qed

lemma flagged_iff_group:
  assumes "query_logs_df st = Some ql" "''query_name'' \<in> set (ql_columns ql)"
    and "detect_c2_beaconing round2 st thr mo = Inr acts"
  shows "flagged_periodic acts u name \<longleftrightarrow>
         query_group ql u name \<noteq> [] \<and>
         beaconing_of_group round2 thr mo u (name, query_group ql u name) \<noteq> []"
proof
  assume "flagged_periodic acts u name"
  then obtain a where a: "a \<in> set acts" "aws_act_User a = u" "Domain a = Some name"
    by (auto simp: flagged_periodic_def list_ex_iff)
  have acts: "acts = concat (map (\<lambda>(u, user_group).
             concat (map (beaconing_of_group round2 thr mo u) (groupby query_name user_group)))
           (groupby (\<lambda>q. Some (user_label q)) (ql_rows ql)))"
    using detect_c2_beaconing_eq [OF assms(1,2), of round2 thr mo] assms(3) by simp
  from a(1) obtain u' ug n' g' where
    g: "(u', ug) \<in> set (groupby (\<lambda>q. Some (user_label q)) (ql_rows ql))"
       "(n', g') \<in> set (groupby query_name ug)"
       "a \<in> set (beaconing_of_group round2 thr mo u' (n', g'))"
    unfolding acts by auto
  have "u' = u" "n' = name" using beaconing_of_group_fields [OF g(3)] a by simp_all
  moreover have "ug = filter (\<lambda>q. user_label q = u') (ql_rows ql)"
    using groupby_member [OF g(1)] by simp
  moreover have "g' = filter (\<lambda>q. query_name q = Some n') ug" "g' \<noteq> []"
    using groupby_member [OF g(2)] by blast+
  ultimately have "g' = query_group ql u name" "g' \<noteq> []"
    by (simp_all add: query_group_def)
  then show "query_group ql u name \<noteq> [] \<and>
         beaconing_of_group round2 thr mo u (name, query_group ql u name) \<noteq> []"
    using g(3) \<open>u' = u\<close> \<open>n' = name\<close> by auto
next
  let ?ug = "filter (\<lambda>q. user_label q = u) (ql_rows ql)"
  assume r: "query_group ql u name \<noteq> [] \<and>
         beaconing_of_group round2 thr mo u (name, query_group ql u name) \<noteq> []"
  then have "filter (\<lambda>q. query_name q = Some name) ?ug \<noteq> []" by (simp add: query_group_def)
  then have "?ug \<noteq> []" by (metis filter.simps(1))
  then have g1: "(u, ?ug) \<in> set (groupby (\<lambda>q. Some (user_label q)) (ql_rows ql))"
    by (simp add: groupby_iff)
  have g2: "(name, query_group ql u name) \<in> set (groupby query_name ?ug)"
    using r by (simp add: groupby_iff query_group_def)
  obtain a where a: "a \<in> set (beaconing_of_group round2 thr mo u (name, query_group ql u name))"
    using r by (meson last_in_set)
  have acts: "acts = concat (map (\<lambda>(u, user_group).
             concat (map (beaconing_of_group round2 thr mo u) (groupby query_name user_group)))
           (groupby (\<lambda>q. Some (user_label q)) (ql_rows ql)))"
    using detect_c2_beaconing_eq [OF assms(1,2), of round2 thr mo] assms(3) by simp
  have "a \<in> set acts" unfolding acts using g1 g2 a by force
  then show "flagged_periodic acts u name"
    using beaconing_of_group_fields [OF a] by (auto simp: flagged_periodic_def list_ex_iff)
qed

lemma length_intervals_of: "length (intervals_of ts) = length ts - 1"
  by (simp add: intervals_of_def)

lemma std_Some_length: "std xs = Some sd \<Longrightarrow> 2 \<le> length xs"
  by (simp add: std_def split: if_splits)

lemma beaconing_of_group_needs_std:
  assumes "\<not> is_suspicious_pattern name"
    and "beaconing_of_group round2 thr mo u (name, grp) \<noteq> []"
  shows "\<exists>sd. std (intervals_of (sort (map query_timestamp grp))) = Some sd"
  using assms by (auto simp: beaconing_of_group_def Let_def split: option.splits if_splits)

lemma beacon_group:
  "query_group (beacon_log ts) ''USER_A'' ''updates.example.org'' = ql_rows (beacon_log ts)"
  by (simp add: query_group_def beacon_log_def filter_map comp_def)

lemma beacon_group_intervals:
  "group_intervals (beacon_log ts) ''USER_A'' ''updates.example.org'' = intervals_of (sort ts)"
  by (simp add: group_intervals_def beacon_group) (simp add: beacon_log_def comp_def)

lemma beacon_name_ok:
  "\<not> list_ex (\<lambda>exc. str_in exc ''updates.example.org'') exclude_domains"
  "\<not> is_suspicious_pattern ''updates.example.org''"
  by (simp_all add: exclude_domains_def is_suspicious_pattern_def lower_def lower_char_def)








lemma beacon_loaded:
  "query_logs_df (beacon_example ts) = Some (beacon_log ts)"
  "''query_name'' \<in> set (ql_columns (beacon_log ts))"
  by (simp_all add: beacon_example_def beacon_log_def)



text \<open>
  C10. A query group of fewer than three queries whose domain is not a c2-server pattern
  is never flagged as a \<open>Periodic Domain Query\<close>, whatever the interval threshold and the
  minimum-occurrence parameter: it has at most one interval, so the standard deviation
  is undefined.
\<close>

theorem beaconing_needs_three_queries:
  assumes "query_logs_df st = Some ql" and "''query_name'' \<in> set (ql_columns ql)"
    and "\<not> is_suspicious_pattern name"
    and "length (query_group ql u name) < 3"
  shows "\<exists>acts. detect_c2_beaconing round2 st interval_threshold min_occurrences = Inr acts \<and>
     \<not> flagged_periodic acts u name"
proof -
  obtain acts where
    acts: "detect_c2_beaconing round2 st interval_threshold min_occurrences = Inr acts"
    using detect_c2_beaconing_eq [OF assms(1,2)] by blast
  have "\<not> flagged_periodic acts u name"
  proof
    assume "flagged_periodic acts u name"
    then have "beaconing_of_group round2 interval_threshold min_occurrences u
                 (name, query_group ql u name) \<noteq> []"
      using flagged_iff_group [OF assms(1,2) acts] by simp
    then obtain sd where
      "std (intervals_of (sort (map query_timestamp (query_group ql u name)))) = Some sd"
      using beaconing_of_group_needs_std [OF assms(3)] by blast
    then have "2 \<le> length (intervals_of (sort (map query_timestamp (query_group ql u name))))"
      by (rule std_Some_length)
    then show False using assms(4) by (simp add: length_intervals_of)
  qed
  then show ?thesis using acts by blast
qed

theorem beaconing_needs_three_queries_witness:
  "length (query_group (beacon_log stamps_pair) ''USER_A'' ''updates.example.org'') = 2
   \<and> mean (group_intervals (beacon_log stamps_pair) ''USER_A'' ''updates.example.org'') = 50
   \<and> (\<exists>acts. detect_c2_beaconing (\<lambda>x. x) (beacon_example stamps_pair) 100 1 = Inr acts \<and>
         \<not> flagged_periodic acts ''USER_A'' ''updates.example.org'')"
proof -
  let ?u = "''USER_A''" and ?n = "''updates.example.org''"
  have l: "length (query_group (beacon_log stamps_pair) ?u ?n) = 2"
    unfolding beacon_group by (simp add: beacon_log_def stamps_pair_def)
  have m: "mean (group_intervals (beacon_log stamps_pair) ?u ?n) = 50"
    by (simp add: beacon_group_intervals stamps_pair_def intervals_of_def total_seconds_def mean_def)
  have l3: "length (query_group (beacon_log stamps_pair) ?u ?n) < 3" using l by simp
  show ?thesis
    using beaconing_needs_three_queries [OF beacon_loaded beacon_name_ok(2) l3, of "\<lambda>x. x" 100 1] l m
    by blast
qed

section \<open>Identity resolution by position\<close>

lemma fold_order_other:
  "w \<notin> set ws \<Longrightarrow>
   map_of (fold (\<lambda>(i, ws_id) m. if i < length ls then AList.update ws_id (ls ! i) m else m)
            (enumerate n ws) m0) w = map_of m0 w"
proof (induction ws arbitrary: n m0)
  case Nil
  show ?case by simp
next
  case (Cons v ws)
  then show ?case by (simp add: update_conv')
qed

lemma fold_order_lookup:
  "distinct ws \<Longrightarrow> i < length ws \<Longrightarrow> n + i < length ls \<Longrightarrow>
   map_of (fold (\<lambda>(i, ws_id) m. if i < length ls then AList.update ws_id (ls ! i) m else m)
            (enumerate n ws) m0) (ws ! i) = Some (ls ! (n + i))"
proof (induction ws arbitrary: n m0 i)
  case Nil
  then show ?case by simp
next
  case (Cons v ws)
  show ?case
  proof (cases i)
    case 0
    then show ?thesis using Cons.prems by (simp add: fold_order_other update_conv')
  next
    case (Suc j)
    then show ?thesis using Cons.prems Cons.IH [of j "Suc n"] by simp
  qed
qed

lemma map_by_order_lookup:
  "distinct ws \<Longrightarrow> i < length ws \<Longrightarrow> i < length ls \<Longrightarrow>
   map_of (map_by_order ls ws) (ws ! i) = Some (ls ! i)"
  using fold_order_lookup [of ws i 0 ls "[]"] by (simp add: map_by_order_def)

lemma sorted_unique_props:
  "distinct (sorted_unique xs)" "sorted (sorted_unique xs)" "set (sorted_unique xs) = set xs"
  by (simp_all add: sorted_unique_def distinct_unique set_unique)

lemma sorted_unique_set_eq:
  "set xs = set ys \<Longrightarrow> sorted_unique xs = sorted_unique ys"
  by (rule sorted_distinct_set_unique) (simp_all add: sorted_unique_props)

lemma user_labels_perm:
  "mset (ql_rows ql') = mset (ql_rows ql) \<Longrightarrow> user_labels_of ql' = user_labels_of ql"
  unfolding user_labels_of_def by (rule sorted_unique_set_eq) (auto dest: mset_eq_setD)

lemma workspace_ids_perm:
  "mset (eb_rows eb') = mset (eb_rows eb) \<Longrightarrow> workspace_ids_of eb' = workspace_ids_of eb"
  unfolding workspace_ids_of_def by (rule sorted_unique_set_eq) (auto dest: mset_eq_setD)

lemma inner_fold_empty:
  "fold (\<lambda>iid m'. case match_workspace ws iid of None \<Rightarrow> m' | Some ws_id \<Rightarrow> AList.update ws_id u m')
     iids m = [] \<longleftrightarrow> m = [] \<and> (\<forall>iid \<in> set iids. match_workspace ws iid = None)"
proof (induction iids arbitrary: m)
  case Nil
  show ?case by simp
next
  case (Cons iid iids)
  show ?case
    by (cases "match_workspace ws iid") (auto simp: Cons.IH)
qed

lemma match_by_instance_id_empty:
  "match_by_instance_id ql ls ws m0 = [] \<longleftrightarrow>
   m0 = [] \<and> (\<forall>u \<in> set ls. \<forall>iid \<in> set (instance_ids_of ql u). match_workspace ws iid = None)"
  unfolding match_by_instance_id_def
proof (induction ls arbitrary: m0)
  case Nil
  show ?case by simp
next
  case (Cons u ls)
  show ?case by (auto simp: Cons.IH inner_fold_empty)
qed

lemma instance_ids_perm:
  assumes "mset (ql_rows ql') = mset (ql_rows ql)"
  shows "set (instance_ids_of ql' u) = set (instance_ids_of ql u)"
proof -
  have "set (ql_rows ql') = set (ql_rows ql)" using assms by (rule mset_eq_setD)
  then show ?thesis by (simp add: instance_ids_of_def set_unique List.map_filter_def)
qed

lemma instance_linkage_perm:
  assumes "mset (ql_rows ql') = mset (ql_rows ql)" "ql_columns ql' = ql_columns ql"
    and "mset (eb_rows eb') = mset (eb_rows eb)"
    and "instance_linkage ql eb = []"
  shows "instance_linkage ql' eb' = []"
  using assms(4) instance_ids_perm [OF assms(1)]
  by (simp add: instance_linkage_def assms(2) user_labels_perm [OF assms(1)]
      workspace_ids_perm [OF assms(3)] match_by_instance_id_empty split: if_splits)

lemma workspace_sessions_user:
  "s \<in> set (workspace_sessions cols workspace_user_map wum (w, grp)) \<Longrightarrow>
   Workspace_ID s = w \<and>
   aws_User s = (case map_of workspace_user_map w of None \<Rightarrow> ''Unknown'' | Some l \<Rightarrow> l)"
  by (auto simp: workspace_sessions_def Let_def aws_session_of_def)

lemma build_workspace_user_map_fallback:
  "instance_linkage ql eb = [] \<Longrightarrow>
   build_workspace_user_map (Some ql) eb = map_by_order (user_labels_of ql) (workspace_ids_of eb)"
  by (simp add: build_workspace_user_map_def)

lemma fallback_labels: "user_labels_of fallback_queries = [''USER_A'', ''USER_B'']"
  by (simp add: user_labels_of_def sorted_unique_def unique_def fallback_queries_def
      fallback_query_def)

lemma fallback_workspaces: "workspace_ids_of fallback_events = [''ws-111'', ''ws-222'']"
  by (simp add: workspace_ids_of_def sorted_unique_def unique_def fallback_events_def
      fallback_login_def)

lemma fallback_no_linkage: "instance_linkage fallback_queries fallback_events = []"
  unfolding instance_linkage_def fallback_labels fallback_workspaces
  by (simp add: match_by_instance_id_def instance_ids_of_def fallback_queries_def
      fallback_query_def unique_def List.map_filter_simps match_workspace_def)

text \<open>
  C6. Let the instance-identifier linkage of the loaded query-log and login-event tables
  yield no match. Then for every reordering of the rows of both tables, the sorted
  distinct user labels and the sorted distinct workspace identifiers are the same lists,
  the workspace-to-user dictionary the builder computes maps the i-th workspace
  identifier to the i-th user label, and every session the builder returns for that
  workspace carries that user label.
\<close>

theorem positional_fallback:
  assumes "instance_linkage ql eb = []"
    and "mset (ql_rows ql') = mset (ql_rows ql)" and "ql_columns ql' = ql_columns ql"
    and "mset (eb_rows eb') = mset (eb_rows eb)"
    and "i < length (user_labels_of ql)" and "i < length (workspace_ids_of eb)"
  shows "user_labels_of ql' = user_labels_of ql \<and> workspace_ids_of eb' = workspace_ids_of eb
     \<and> map_of (build_workspace_user_map (Some ql') eb') (workspace_ids_of eb ! i)
       = Some (user_labels_of ql ! i)
     \<and> (\<forall>st m st'. query_logs_df st = Some ql' \<and> eventbridge_df st = Some eb' \<and>
           aws_generate_user_vm_mapping st = Inr (m, st') \<longrightarrow>
           (\<forall>s \<in> set m. Workspace_ID s = workspace_ids_of eb ! i \<longrightarrow>
                         aws_User s = user_labels_of ql ! i))"
proof -
  have ls: "user_labels_of ql' = user_labels_of ql" by (rule user_labels_perm [OF assms(2)])
  have ws: "workspace_ids_of eb' = workspace_ids_of eb" by (rule workspace_ids_perm [OF assms(4)])
  have "instance_linkage ql' eb' = []"
    by (rule instance_linkage_perm [OF assms(2,3,4,1)])
  then have b: "build_workspace_user_map (Some ql') eb'
      = map_by_order (user_labels_of ql) (workspace_ids_of eb)"
    by (simp add: build_workspace_user_map_fallback ls ws)
  have d: "distinct (workspace_ids_of eb)"
    by (simp add: workspace_ids_of_def sorted_unique_props)
  have look: "map_of (build_workspace_user_map (Some ql') eb') (workspace_ids_of eb ! i)
       = Some (user_labels_of ql ! i)"
    unfolding b by (rule map_by_order_lookup [OF d assms(6,5)])
  have sess: "aws_User s = user_labels_of ql ! i"
    if st: "query_logs_df st = Some ql'" "eventbridge_df st = Some eb'"
       "aws_generate_user_vm_mapping st = Inr (m, st')"
      and s: "s \<in> set m" "Workspace_ID s = workspace_ids_of eb ! i" for st m st' s
  proof -
    have "m = concat (map (workspace_sessions (eb_columns eb')
                             (build_workspace_user_map (Some ql') eb')
                             (workspace_user_mapping st))
                        (groupby (\<lambda>e. Some (workspaceId e)) (eb_rows eb')))"
      using st by (auto simp: aws_generate_user_vm_mapping_def Let_def)
    then obtain w grp where
      "s \<in> set (workspace_sessions (eb_columns eb') (build_workspace_user_map (Some ql') eb')
                  (workspace_user_mapping st) (w, grp))"
      using s(1) by auto
    then have "Workspace_ID s = w"
      "aws_User s = (case map_of (build_workspace_user_map (Some ql') eb') w of
                       None \<Rightarrow> ''Unknown'' | Some l \<Rightarrow> l)"
      using workspace_sessions_user by blast+
    then show ?thesis using s(2) look by simp
  qed
  show ?thesis using ls ws look sess by blast
qed

theorem positional_fallback_witness:
  "instance_linkage fallback_queries fallback_events = []
   \<and> user_labels_of fallback_queries = [''USER_A'', ''USER_B'']
   \<and> workspace_ids_of fallback_events = [''ws-111'', ''ws-222'']
   \<and> map_of (build_workspace_user_map (Some fallback_queries_reordered) fallback_events_reordered)
        ''ws-111'' = Some ''USER_A''
   \<and> map_of (build_workspace_user_map (Some fallback_queries_reordered) fallback_events_reordered)
        ''ws-222'' = Some ''USER_B''
   \<and> map_of (build_workspace_user_map (Some fallback_queries) fallback_events)
        ''ws-111'' = Some ''USER_A''
   \<and> map_of (build_workspace_user_map (Some fallback_queries) fallback_events)
        ''ws-222'' = Some ''USER_B''"
proof -
  have q: "mset (ql_rows fallback_queries_reordered) = mset (ql_rows fallback_queries)"
    "ql_columns fallback_queries_reordered = ql_columns fallback_queries"
    by (simp_all add: fallback_queries_def fallback_queries_reordered_def)
  have e: "mset (eb_rows fallback_events_reordered) = mset (eb_rows fallback_events)"
    by (simp add: fallback_events_def fallback_events_reordered_def)
  have i0: "0 < length (user_labels_of fallback_queries)"
    "0 < length (workspace_ids_of fallback_events)"
    by (simp_all add: fallback_labels fallback_workspaces)
  have i1: "1 < length (user_labels_of fallback_queries)"
    "1 < length (workspace_ids_of fallback_events)"
    by (simp_all add: fallback_labels fallback_workspaces)
  show ?thesis
    using positional_fallback [OF fallback_no_linkage q e i0]
      positional_fallback [OF fallback_no_linkage q e i1]
      positional_fallback [OF fallback_no_linkage refl refl refl i0]
      positional_fallback [OF fallback_no_linkage refl refl refl i1]
      fallback_no_linkage
    by (simp add: fallback_labels fallback_workspaces)
qed

end
